theory Spec2Isabelle
  imports Complex_Main "HOL-Library.Product_Lexorder" "HOL-Library.AList"
begin

section \<open>Strings\<close>

text \<open>
  JavaScript strings are modelled as \<^typ>\<open>string\<close>, a list of 8-bit code units.
  Numbers (IEEE doubles in the source) are modelled as exact rationals; a value that
  is \<open>NaN\<close> or infinite in the source is \<open>None\<close>.
\<close>

definition TAB :: char where "TAB = CHR 0x09"
definition LF :: char where "LF = CHR 0x0A"
definition CR :: char where "CR = CHR 0x0D"

text \<open>The white space that \<open>String.prototype.trim\<close> removes, within 8-bit code units.\<close>

definition is_space :: "char \<Rightarrow> bool" where
  "is_space c \<longleftrightarrow> c \<in> set [CHR 0x09, CHR 0x0A, CHR 0x0B, CHR 0x0C, CHR 0x0D, CHR 0x20, CHR 0xA0]"

definition trim :: "string \<Rightarrow> string" where
  "trim s = rev (dropWhile is_space (rev (dropWhile is_space s)))"

text \<open>\<open>xs.join(sep)\<close> on an array of strings.\<close>

fun join :: "string \<Rightarrow> string list \<Rightarrow> string" where
  "join sep [] = []"
| "join sep [p] = p"
| "join sep (p # q # ps) = p @ sep @ join sep (q # ps)"

text \<open>Puts a character in front of the first piece of a split.\<close>

fun cons_first :: "char \<Rightarrow> string list \<Rightarrow> string list" where
  "cons_first c [] = [[c]]"
| "cons_first c (w # ws) = (c # w) # ws"

text \<open>\<open>s.split(d)\<close> for a one-character separator: the empty string gives one empty piece.\<close>

fun split_on :: "char \<Rightarrow> string \<Rightarrow> string list" where
  "split_on d [] = [[]]"
| "split_on d (c # cs) = (if c = d then [] # split_on d cs else cons_first c (split_on d cs))"

text \<open>\<open>s.split(/\r?\n/)\<close>: a line feed, or a carriage return directly followed by one, separates.\<close>

fun split_lines :: "string \<Rightarrow> string list" where
  "split_lines [] = [[]]"
| "split_lines [c] = (if c = LF then [[], []] else [[c]])"
| "split_lines (c # d # cs) =
     (if c = LF then [] # split_lines (d # cs)
      else if c = CR \<and> d = LF then [] # split_lines cs
      else cons_first c (split_lines (d # cs)))"

text \<open>\<open>xs.indexOf(x)\<close>; the source's \<open>-1\<close> is \<open>None\<close>.\<close>

fun indexOf :: "'a list \<Rightarrow> 'a \<Rightarrow> nat option" where
  "indexOf [] x = None"
| "indexOf (y # ys) x = (if y = x then Some 0 else map_option Suc (indexOf ys x))"

text \<open>\<open>xs[i]\<close>; reading past the end gives \<open>undefined\<close>, here \<open>None\<close>.\<close>

definition at_index :: "'a list \<Rightarrow> nat \<Rightarrow> 'a option" where
  "at_index xs i = (if i < length xs then Some (xs ! i) else None)"

text \<open>A value inside a template literal: \<open>undefined\<close> prints as its name.\<close>

definition template :: "string option \<Rightarrow> string" where
  "template v = (case v of None \<Rightarrow> ''undefined'' | Some s \<Rightarrow> s)"

section \<open>Numbers read from strings\<close>

text \<open>
  \<open>Number(v)\<close> is a built-in of the language. The parser below takes it as the
  parameter \<open>num\<close>, which gives the finite value of a string, or \<open>None\<close> where
  \<open>Number\<close> gives \<open>NaN\<close> or an infinity. \<open>Number(undefined)\<close> is \<open>NaN\<close>.
\<close>

definition Number :: "(string \<Rightarrow> rat option) \<Rightarrow> string option \<Rightarrow> rat option" where
  "Number num v = (case v of None \<Rightarrow> None | Some s \<Rightarrow> num s)"

text \<open>
  A concrete reading of \<open>Number\<close> on plain decimal numerals (optional sign, digits,
  optional fraction, surrounded by white space; the empty string is 0), which is what the
  recogniser prints. It is used only to evaluate the parser on concrete tables.
\<close>

definition is_digit :: "char \<Rightarrow> bool" where
  "is_digit c \<longleftrightarrow> (48::nat) \<le> of_char c \<and> of_char c \<le> (57::nat)"

definition digit_val :: "char \<Rightarrow> nat" where
  "digit_val c = of_char c - 48"

fun digits_val :: "nat \<Rightarrow> string \<Rightarrow> nat" where
  "digits_val acc [] = acc"
| "digits_val acc (c # cs) = digits_val (10 * acc + digit_val c) cs"

definition unsigned_decimal :: "string \<Rightarrow> rat option" where
  "unsigned_decimal s =
     (let ip = takeWhile is_digit s; r = dropWhile is_digit s in
      if r = [] then (if ip = [] then None else Some (of_nat (digits_val 0 ip)))
      else if hd r = CHR ''.'' \<and> list_all is_digit (tl r) \<and> (ip \<noteq> [] \<or> tl r \<noteq> [])
      then Some (of_nat (digits_val 0 ip) + of_nat (digits_val 0 (tl r)) / 10 ^ length (tl r))
      else None)"

definition Number_decimal :: "string \<Rightarrow> rat option" where
  "Number_decimal s =
     (let t = trim s in
      if t = [] then Some 0
      else if hd t = CHR ''-'' then map_option uminus (unsigned_decimal (tl t))
      else if hd t = CHR ''+'' then unsigned_decimal (tl t)
      else unsigned_decimal t)"

section \<open>Block normaliser: \<open>parseTsvToLineBlocks\<close>\<close>

record bbox =
  x0 :: rat
  y0 :: rat
  x1 :: rat
  y1 :: rat

text \<open>One entry of the \<open>groups\<close> map.\<close>

record line_group =
  parts :: "string list"
  confs :: "rat list"
  gbox :: bbox

text \<open>One element of the returned array: \<open>{ text, confidence, bbox }\<close>.\<close>

record line_block =
  block_text :: string
  block_confidence :: rat
  block_bbox :: bbox

text \<open>The twelve column positions found in the header row.\<close>

record column_index =
  levelIdx :: nat
  pageIdx :: nat
  blockIdx :: nat
  parIdx :: nat
  lineIdx :: nat
  wordIdx :: nat
  leftIdx :: nat
  topIdx :: nat
  widthIdx :: nat
  heightIdx :: nat
  confIdx :: nat
  textIdx :: nat

definition required_columns :: "string list" where
  "required_columns =
     [''level'', ''page_num'', ''block_num'', ''par_num'', ''line_num'', ''word_num'',
      ''left'', ''top'', ''width'', ''height'', ''conf'', ''text'']"

text \<open>
  The twelve \<open>idx(name)\<close> lookups and the test that none of them is \<open>-1\<close>; \<open>None\<close> is
  the early \<open>return []\<close>.
\<close>

definition locate_columns :: "string list \<Rightarrow> column_index option" where
  "locate_columns header =
     (let idx = indexOf header in
      if list_ex (\<lambda>v. v = None) (map idx required_columns) then None
      else Some \<lparr>levelIdx = the (idx ''level''), pageIdx = the (idx ''page_num''),
                 blockIdx = the (idx ''block_num''), parIdx = the (idx ''par_num''),
                 lineIdx = the (idx ''line_num''), wordIdx = the (idx ''word_num''),
                 leftIdx = the (idx ''left''), topIdx = the (idx ''top''),
                 widthIdx = the (idx ''width''), heightIdx = the (idx ''height''),
                 confIdx = the (idx ''conf''), textIdx = the (idx ''text'')\<rparr>)"

text \<open>
  What the loop body keeps of a row that passes every \<open>continue\<close>: the four hierarchy
  columns as they are printed into the key, the trimmed text, the confidence and the
  box \<open>(left, top, left + width, top + height)\<close>.
\<close>

record tsv_word =
  w_page :: string
  w_block :: string
  w_par :: string
  w_line :: string
  w_text :: string
  w_conf :: rat
  w_box :: bbox

text \<open>The key \<open>`${page}-${block}-${par}-${line}`\<close>.\<close>

definition group_key :: "tsv_word \<Rightarrow> string" where
  "group_key w = w_page w @ ''-'' @ w_block w @ ''-'' @ w_par w @ ''-'' @ w_line w"

text \<open>
  The first half of the loop body, from \<open>rows[i].split("\t")\<close> to the computation of
  the key and the box. Every \<open>continue\<close> of the source is a \<open>None\<close>.
\<close>

definition parse_row :: "(string \<Rightarrow> rat option) \<Rightarrow> column_index \<Rightarrow> string \<Rightarrow> tsv_word option" where
  "parse_row num ix row =
     (let cols = split_on TAB row in
      if length cols \<le> textIdx ix then None
      else
        (let level = Number num (at_index cols (levelIdx ix));
             wordNum = Number num (at_index cols (wordIdx ix)) in
         if level \<noteq> Some 5 \<or> (case wordNum of None \<Rightarrow> True | Some n \<Rightarrow> n \<le> 0) then None
         else
           (case Number num (at_index cols (confIdx ix)) of
              None \<Rightarrow> None
            | Some conf \<Rightarrow>
                (if conf < 0 then None
                 else
                   (let txt = trim (case at_index cols (textIdx ix) of None \<Rightarrow> [] | Some s \<Rightarrow> s) in
                    if txt = [] then None
                    else
                      (case (Number num (at_index cols (leftIdx ix)),
                             Number num (at_index cols (topIdx ix)),
                             Number num (at_index cols (widthIdx ix)),
                             Number num (at_index cols (heightIdx ix))) of
                         (Some vleft, Some vtop, Some vwidth, Some vheight) \<Rightarrow>
                           (if vwidth \<le> 0 \<or> vheight \<le> 0 then None
                            else Some \<lparr>w_page = template (at_index cols (pageIdx ix)),
                                       w_block = template (at_index cols (blockIdx ix)),
                                       w_par = template (at_index cols (parIdx ix)),
                                       w_line = template (at_index cols (lineIdx ix)),
                                       w_text = txt, w_conf = conf,
                                       w_box = \<lparr>x0 = vleft, y0 = vtop,
                                                x1 = vleft + vwidth, y1 = vtop + vheight\<rparr>\<rparr>)
                       | _ \<Rightarrow> None))))))"

text \<open>
  The second half of the loop body: \<open>groups.get(key)\<close>, then either
  \<open>groups.set(key, {...})\<close> or the update of the existing entry in place. The map keeps
  its keys in insertion order, so it is an association list.
\<close>

definition add_word :: "(string \<times> line_group) list \<Rightarrow> tsv_word \<Rightarrow> (string \<times> line_group) list" where
  "add_word groups w =
     (case map_of groups (group_key w) of
        None \<Rightarrow>
          AList.update (group_key w)
            \<lparr>parts = [w_text w], confs = [w_conf w], gbox = w_box w\<rparr> groups
      | Some existing \<Rightarrow>
          AList.update (group_key w)
            \<lparr>parts = parts existing @ [w_text w],
             confs = confs existing @ [w_conf w],
             gbox = \<lparr>x0 = min (x0 (gbox existing)) (x0 (w_box w)),
                     y0 = min (y0 (gbox existing)) (y0 (w_box w)),
                     x1 = max (x1 (gbox existing)) (x1 (w_box w)),
                     y1 = max (y1 (gbox existing)) (y1 (w_box w))\<rparr>\<rparr> groups)"

definition row_step ::
  "(string \<Rightarrow> rat option) \<Rightarrow> column_index \<Rightarrow> (string \<times> line_group) list \<Rightarrow> string
    \<Rightarrow> (string \<times> line_group) list" where
  "row_step num ix groups row =
     (case parse_row num ix row of None \<Rightarrow> groups | Some w \<Rightarrow> add_word groups w)"

text \<open>The loop \<open>for (let i = 1; i < rows.length; i++)\<close> over the rows after the header.\<close>

definition group_rows ::
  "(string \<Rightarrow> rat option) \<Rightarrow> column_index \<Rightarrow> string list \<Rightarrow> (string \<times> line_group) list" where
  "group_rows num ix rows = foldl (row_step num ix) [] rows"

text \<open>The loop over \<open>groups.values()\<close> that builds \<open>blocks\<close>.\<close>

definition emit_block :: "string \<Rightarrow> line_group \<Rightarrow> line_block option" where
  "emit_block joiner v =
     (let t = trim (join joiner (parts v)) in
      if t = [] then None
      else Some \<lparr>block_text = t,
                 block_confidence =
                   foldl (+) 0 (confs v) /
                     (if length (confs v) = 0 then 1 else of_nat (length (confs v))),
                 block_bbox = gbox v\<rparr>)"

definition emit_blocks :: "string \<Rightarrow> (string \<times> line_group) list \<Rightarrow> line_block list" where
  "emit_blocks joiner groups = List.map_filter (\<lambda>(k, v). emit_block joiner v) groups"

text \<open>
  \<open>blocks.sort((a, b) => a.bbox.y0 - b.bbox.y0 || a.bbox.x0 - b.bbox.x0)\<close>: a stable sort
  on \<open>(y0, x0)\<close>, ordered lexicographically.
\<close>

definition sort_blocks :: "line_block list \<Rightarrow> line_block list" where
  "sort_blocks bs = sort_key (\<lambda>b. (y0 (block_bbox b), x0 (block_bbox b))) bs"

text \<open>The rows of a table: \<open>tsv.split(/\r?\n/).filter(Boolean)\<close>.\<close>

definition tsv_rows :: "string \<Rightarrow> string list" where
  "tsv_rows tsv = filter (\<lambda>r. r \<noteq> []) (split_lines tsv)"

text \<open>
  The whole function. The argument is \<open>None\<close> when \<open>data.tsv\<close> is missing or not a
  string.
\<close>

definition parseTsvToLineBlocks ::
  "(string \<Rightarrow> rat option) \<Rightarrow> string option \<Rightarrow> string \<Rightarrow> line_block list" where
  "parseTsvToLineBlocks num tsv joiner =
     (case tsv of
        None \<Rightarrow> []
      | Some s \<Rightarrow>
          (if s = [] then []
           else
             (let rows = tsv_rows s in
              if length rows < 2 then []
              else
                (case locate_columns (split_on TAB (hd rows)) of
                   None \<Rightarrow> []
                 | Some ix \<Rightarrow> sort_blocks (emit_blocks joiner (group_rows num ix (tl rows)))))))"

section \<open>Fetch resolver\<close>

datatype tier = ReferrerSpoofed | Direct | Relayed

text \<open>
  The \<open>Error\<close> objects thrown while an image is fetched, by where they arise: the
  rejection of a \<open>fetch\<close> promise, \<open>Failed to fetch: <status>\<close>, the rejection of
  \<open>response.blob()\<close>, the rejection of \<open>tabs.sendMessage\<close>, and the error thrown by
  \<open>fetchImageViaContent\<close> with its message.
\<close>

datatype fetch_error =
    NetworkError string
  | FailedToFetch nat
  | BodyError string
  | TransportError string
  | ContentFetchError string

text \<open>
  What one \<open>fetch\<close> call does: the promise rejects, or it resolves to a response with a
  status and a body, whose \<open>blob()\<close> may reject in turn.
\<close>

datatype 'blob http = Rejected string | Answered nat "string + 'blob"

definition ok :: "nat \<Rightarrow> bool" where
  "ok status \<longleftrightarrow> 200 \<le> status \<and> status \<le> 299"

text \<open>
  What \<open>tabs.sendMessage(tabId, {type: "FETCH_IMAGE", url})\<close> does: the promise rejects,
  or resolves to nothing, or to the content script's reply \<open>{ ok, buffer, error }\<close>.
\<close>

datatype 'blob reply = NoReply | Reply bool "'blob option" "string option"

datatype 'blob relay = RelayRejected string | RelayAnswered "'blob reply"

text \<open>
  The network as seen from one pipeline run: what each tier's request would meet. The
  resolver reads only the fields of the tiers it invokes.
\<close>

record 'blob network =
  spoofed_fetch :: "'blob http"
  direct_fetch :: "'blob http"
  content_reply :: "'blob relay"

text \<open>
  The state of the background script that the resolver touches: the listeners installed
  on the two \<open>webRequest\<close> events (a listener is a closure, known by its identity), the
  next unused closure identity, and the requests issued so far, oldest first.
\<close>

record browser =
  onBeforeSendHeaders :: "nat list"
  onHeadersReceived :: "nat list"
  next_closure :: nat
  requests :: "tier list"

definition addListener :: "nat \<Rightarrow> nat list \<Rightarrow> nat list" where
  "addListener l ls = (if l \<in> set ls then ls else ls @ [l])"

definition removeListener :: "nat \<Rightarrow> nat list \<Rightarrow> nat list" where
  "removeListener l ls = removeAll l ls"

text \<open>\<open>await fetch(url, ...)\<close>, the test of \<open>response.ok\<close> and \<open>await response.blob()\<close>.\<close>

definition checked_blob :: "'blob http \<Rightarrow> fetch_error + 'blob" where
  "checked_blob h =
     (case h of
        Rejected m \<Rightarrow> Inl (NetworkError m)
      | Answered status body \<Rightarrow>
          (if \<not> ok status then Inl (FailedToFetch status)
           else (case body of Inl m \<Rightarrow> Inl (BodyError m) | Inr blob \<Rightarrow> Inr blob)))"

text \<open>\<open>(await fetch(url)).blob()\<close>, which does not look at the status.\<close>

definition unchecked_blob :: "'blob http \<Rightarrow> fetch_error + 'blob" where
  "unchecked_blob h =
     (case h of
        Rejected m \<Rightarrow> Inl (NetworkError m)
      | Answered status body \<Rightarrow> (case body of Inl m \<Rightarrow> Inl (BodyError m) | Inr blob \<Rightarrow> Inr blob))"

text \<open>
  \<open>try { body } finally { cleanup }\<close> on a state: the clean-up runs on the state the
  body leaves, whether the body returned a value or threw, and the outcome of the body
  is the outcome of the whole.
\<close>

definition try_finally ::
  "('s \<Rightarrow> ('e + 'a) \<times> 's) \<Rightarrow> ('s \<Rightarrow> 's) \<Rightarrow> 's \<Rightarrow> ('e + 'a) \<times> 's" where
  "try_finally body cleanup s = (case body s of (outcome, s') \<Rightarrow> (outcome, cleanup s'))"

text \<open>
  The body of the \<open>try\<close> block of \<open>fetchImageWithReferrer\<close>: the request, the test of
  the status and the reading of the blob.
\<close>

definition spoofed_request ::
  "'blob network \<Rightarrow> browser \<Rightarrow> (fetch_error + 'blob) \<times> browser" where
  "spoofed_request net b =
     (checked_blob (spoofed_fetch net), b\<lparr>requests := requests b @ [ReferrerSpoofed]\<rparr>)"

text \<open>The \<open>finally\<close> block: both listeners are removed.\<close>

definition remove_listeners :: "nat \<Rightarrow> nat \<Rightarrow> browser \<Rightarrow> browser" where
  "remove_listeners l1 l2 b =
     b\<lparr>onBeforeSendHeaders := removeListener l1 (onBeforeSendHeaders b),
       onHeadersReceived := removeListener l2 (onHeadersReceived b)\<rparr>"

text \<open>
  \<open>fetchImageWithReferrer(url, referrer)\<close>. Without a referrer it is a plain fetch.
  With one, the two closures \<open>onBeforeSendHeaders\<close> and \<open>onHeadersReceived\<close> are created
  and installed, and the request runs inside \<open>try\<close> with the removal in \<open>finally\<close>.
\<close>

definition fetchImageWithReferrer ::
  "'blob network \<Rightarrow> string \<Rightarrow> browser \<Rightarrow> (fetch_error + 'blob) \<times> browser" where
  "fetchImageWithReferrer net referrer b =
     (if referrer = [] then
        (unchecked_blob (spoofed_fetch net), b\<lparr>requests := requests b @ [ReferrerSpoofed]\<rparr>)
      else
        (let l1 = next_closure b;
             l2 = next_closure b + 1;
             b1 = b\<lparr>next_closure := next_closure b + 2\<rparr>;
             b2 = b1\<lparr>onBeforeSendHeaders := addListener l1 (onBeforeSendHeaders b1)\<rparr>;
             b3 = b2\<lparr>onHeadersReceived := addListener l2 (onHeadersReceived b2)\<rparr>
         in try_finally (spoofed_request net) (remove_listeners l1 l2) b3))"

text \<open>The direct fetch written inside \<open>handleImagePipeline\<close>.\<close>

definition fetchDirect :: "'blob network \<Rightarrow> browser \<Rightarrow> (fetch_error + 'blob) \<times> browser" where
  "fetchDirect net b = (checked_blob (direct_fetch net), b\<lparr>requests := requests b @ [Direct]\<rparr>)"

text \<open>\<open>response?.error || "Unknown content fetch error"\<close>.\<close>

definition content_error_message :: "string option \<Rightarrow> string" where
  "content_error_message e =
     (case e of None \<Rightarrow> ''Unknown content fetch error''
      | Some m \<Rightarrow> (if m = [] then ''Unknown content fetch error'' else m))"

definition relayed_blob :: "'blob relay \<Rightarrow> fetch_error + 'blob" where
  "relayed_blob r =
     (case r of
        RelayRejected m \<Rightarrow> Inl (TransportError m)
      | RelayAnswered NoReply \<Rightarrow> Inl (ContentFetchError (content_error_message None))
      | RelayAnswered (Reply okay buffer err) \<Rightarrow>
          (case buffer of
             None \<Rightarrow> Inl (ContentFetchError (content_error_message err))
           | Some bytes \<Rightarrow>
               (if \<not> okay then Inl (ContentFetchError (content_error_message err))
                else Inr bytes)))"

definition fetchImageViaContent ::
  "'blob network \<Rightarrow> browser \<Rightarrow> (fetch_error + 'blob) \<times> browser" where
  "fetchImageViaContent net b =
     (relayed_blob (content_reply net), b\<lparr>requests := requests b @ [Relayed]\<rparr>)"

text \<open>
  Step \<open>1. Fetch Image\<close> of \<open>handleImagePipeline\<close>: the nested \<open>try\<close>/\<open>catch\<close> blocks.
  An error of the last tier leaves the step; the outer \<open>catch\<close> rethrows it under the
  name of the current step.
\<close>

definition fetch_image ::
  "'blob network \<Rightarrow> string \<Rightarrow> browser \<Rightarrow> (fetch_error + 'blob) \<times> browser" where
  "fetch_image net pageUrl b =
     (case fetchImageWithReferrer net pageUrl b of
        (Inr blob, b1) \<Rightarrow> (Inr blob, b1)
      | (Inl e, b1) \<Rightarrow>
          (case fetchDirect net b1 of
             (Inr blob, b2) \<Rightarrow> (Inr blob, b2)
           | (Inl directErr, b2) \<Rightarrow> fetchImageViaContent net b2))"

datatype 'e step_error = StepError string 'e

definition fetch_step ::
  "'blob network \<Rightarrow> string \<Rightarrow> browser \<Rightarrow> (fetch_error step_error + 'blob) \<times> browser" where
  "fetch_step net pageUrl b =
     (case fetch_image net pageUrl b of
        (Inl e, b') \<Rightarrow> (Inl (StepError ''Fetching Image'' e), b')
      | (Inr blob, b') \<Rightarrow> (Inr blob, b'))"

section \<open>Confidence filter and translation loop\<close>

text \<open>
  An element of \<open>ocrBlocks\<close>, as the loop reads it: \<open>confidence\<close> and \<open>conf\<close> when they
  are numbers, \<open>text\<close> when it is a string, \<open>bbox\<close> when it is present with four numeric
  corners.
\<close>

record ocr_block =
  ob_confidence :: "rat option"
  ob_conf :: "rat option"
  ob_text :: "string option"
  ob_bbox :: "bbox option"

text \<open>An element of \<open>translatedBlocks\<close>: \<open>{ text, original, bbox }\<close>.\<close>

record translated_block =
  tb_text :: string
  tb_original :: string
  tb_bbox :: bbox

text \<open>
  The variables of the loop, and the texts handed to the translator so far, one entry
  for each call, oldest first.
\<close>

record loop_state =
  skippedLowConfidence :: nat
  skippedNoText :: nat
  skippedNoBbox :: nat
  translatedBlocks :: "translated_block list"
  translator_calls :: "string list"

definition MIN_CONFIDENCE :: rat where
  "MIN_CONFIDENCE = 30"

definition initial_loop_state :: loop_state where
  "initial_loop_state =
     \<lparr>skippedLowConfidence = 0, skippedNoText = 0, skippedNoBbox = 0,
      translatedBlocks = [], translator_calls = []\<rparr>"

definition block_confidence_of :: "ocr_block \<Rightarrow> rat" where
  "block_confidence_of block =
     (case ob_confidence block of
        Some c \<Rightarrow> c
      | None \<Rightarrow> (case ob_conf block of Some c \<Rightarrow> c | None \<Rightarrow> 0))"

definition block_text_of :: "ocr_block \<Rightarrow> string" where
  "block_text_of block = trim (case ob_text block of Some t \<Rightarrow> t | None \<Rightarrow> [])"

text \<open>
  The body of the loop \<open>for (const block of ocrBlocks)\<close> of the local pipeline: each
  \<open>continue\<close> returns the state for the next round. The translator is a parameter; a
  call that throws leaves the loop with the error. The two tests of \<open>!bbox\<close> stand as in
  the source, one after the other.
\<close>

definition loop_body ::
  "(string \<Rightarrow> string + string) \<Rightarrow> loop_state \<Rightarrow> ocr_block \<Rightarrow> string + loop_state" where
  "loop_body translatorPipe st block =
     (if block_confidence_of block < MIN_CONFIDENCE then
        Inr (st\<lparr>skippedLowConfidence := skippedLowConfidence st + 1\<rparr>)
      else if block_text_of block = [] then
        Inr (st\<lparr>skippedNoText := skippedNoText st + 1\<rparr>)
      else if ob_bbox block = None then
        Inr st
      else if ob_bbox block = None then
        Inr (st\<lparr>skippedNoBbox := skippedNoBbox st + 1\<rparr>)
      else
        (case translatorPipe (block_text_of block) of
           Inl err \<Rightarrow> Inl err
         | Inr translatedText \<Rightarrow>
             Inr (st\<lparr>translatedBlocks := translatedBlocks st @
                       [\<lparr>tb_text = translatedText, tb_original = block_text_of block,
                         tb_bbox = the (ob_bbox block)\<rparr>],
                     translator_calls := translator_calls st @ [block_text_of block]\<rparr>)))"

fun translate_loop ::
  "(string \<Rightarrow> string + string) \<Rightarrow> loop_state \<Rightarrow> ocr_block list \<Rightarrow> string + loop_state" where
  "translate_loop translatorPipe st [] = Inr st"
| "translate_loop translatorPipe st (block # rest) =
     (case loop_body translatorPipe st block of
        Inl err \<Rightarrow> Inl err
      | Inr st' \<Rightarrow> translate_loop translatorPipe st' rest)"

text \<open>
  The result of the local pipeline from the loop on: \<open>{ success: true, blocks }\<close>, or the
  error rethrown under the step name \<open>Translating\<close>.
\<close>

definition translate_step ::
  "(string \<Rightarrow> string + string) \<Rightarrow> ocr_block list \<Rightarrow> string step_error + translated_block list" where
  "translate_step translatorPipe ocrBlocks =
     (case translate_loop translatorPipe initial_loop_state ocrBlocks of
        Inl err \<Rightarrow> Inl (StepError ''Translating'' err)
      | Inr st \<Rightarrow> Inr (translatedBlocks st))"

subsection \<open>The pipeline that calls a remote translator\<close>




section \<open>Overlay renderer: \<open>overlayTranslations\<close>\<close>

text \<open>The \<open>div\<close> placed over the image for one block, with the lengths in pixels.\<close>

record overlay_div =
  div_innerText :: string
  div_title :: string
  div_left :: rat
  div_top :: rat
  div_width :: rat
  div_height :: rat
  div_fontSize :: rat

text \<open>
  \<open>overlayTranslations(img, blocks, originalWidth, originalHeight)\<close>, with \<open>img.width\<close>
  and \<open>img.height\<close> as arguments; the result is the list of elements appended to the
  wrapper, in order.
\<close>

definition overlayTranslations ::
  "rat \<Rightarrow> rat \<Rightarrow> translated_block list \<Rightarrow> rat \<Rightarrow> rat \<Rightarrow> overlay_div list" where
  "overlayTranslations img_width img_height blocks originalWidth originalHeight =
     (let scaleX = img_width / originalWidth;
          scaleY = img_height / originalHeight
      in map (\<lambda>block.
            \<lparr>div_innerText = tb_text block,
             div_title = tb_original block,
             div_left = x0 (tb_bbox block) * scaleX,
             div_top = y0 (tb_bbox block) * scaleY,
             div_width = (x1 (tb_bbox block) - x0 (tb_bbox block)) * scaleX,
             div_height = (y1 (tb_bbox block) - y0 (tb_bbox block)) * scaleY,
             div_fontSize = (y1 (tb_bbox block) - y0 (tb_bbox block)) * scaleY * (8 / 10)\<rparr>)
          blocks)"

section \<open>Task queue and scheduler\<close>

text \<open>An \<open>img\<close> element of the document: its identity and its displayed size.\<close>

record img =
  img_id :: nat
  img_width :: nat
  img_height :: nat

text \<open>The language settings that travel with a task.\<close>

record settings =
  source :: string
  target :: string

text \<open>An entry of \<open>imageQueue\<close>: \<open>{ img, settings, wrapper, overlay }\<close>, by the image.\<close>

record task =
  task_img :: nat
  task_settings :: settings

datatype event = Dispatched nat | Finished nat bool

text \<open>
  The content script's state: \<open>img.dataset.status\<close> for every image (the empty string
  when unset), \<open>imageQueue\<close>, \<open>activeProcessors\<close>, the images whose request to the
  background script is pending, and the dispatches and completions so far, oldest first.
\<close>

record page =
  status :: "nat \<Rightarrow> string"
  imageQueue :: "task list"
  activeProcessors :: int
  in_flight :: "nat list"
  history :: "event list"

definition MAX_CONCURRENT :: int where
  "MAX_CONCURRENT = 1"

definition initial_page :: page where
  "initial_page =
     \<lparr>status = (\<lambda>i. []), imageQueue = [], activeProcessors = 0, in_flight = [], history = []\<rparr>"

text \<open>\<open>processQueue()\<close> up to the point where the request is sent.\<close>

definition processQueue :: "page \<Rightarrow> page" where
  "processQueue s =
     (if activeProcessors s \<ge> MAX_CONCURRENT \<or> imageQueue s = [] then s
      else s\<lparr>activeProcessors := activeProcessors s + 1,
             imageQueue := tl (imageQueue s),
             in_flight := in_flight s @ [task_img (hd (imageQueue s))],
             history := history s @ [Dispatched (task_img (hd (imageQueue s)))]\<rparr>)"

text \<open>
  The handlers that run when the request of image \<open>i\<close> settles: \<open>then\<close> sets the status
  to \<open>done\<close>, \<open>catch\<close> resets it to the empty string, and \<open>finally\<close> decrements the counter
  and calls \<open>processQueue\<close>.
\<close>

definition settle :: "nat \<Rightarrow> bool \<Rightarrow> page \<Rightarrow> page" where
  "settle i success s =
     processQueue
       (s\<lparr>status := (status s)(i := (if success then ''done'' else [])),
          in_flight := remove1 i (in_flight s),
          history := history s @ [Finished i success],
          activeProcessors := activeProcessors s - 1\<rparr>)"

text \<open>The body of \<open>images.forEach\<close> in \<open>scanAndTranslate\<close>, for a size threshold.\<close>

definition scan_image :: "nat \<Rightarrow> settings \<Rightarrow> page \<Rightarrow> img \<Rightarrow> page" where
  "scan_image min_size st s im =
     (if img_width im < min_size \<or> img_height im < min_size \<or> status s (img_id im) \<noteq> [] then s
      else s\<lparr>status := (status s)(img_id im := ''queued''),
             imageQueue := imageQueue s @ [\<lparr>task_img = img_id im, task_settings = st\<rparr>]\<rparr>)"

definition scan_images :: "nat \<Rightarrow> settings \<Rightarrow> img list \<Rightarrow> page \<Rightarrow> page" where
  "scan_images min_size st images s = foldl (scan_image min_size st) s images"

definition scanAndTranslate :: "nat \<Rightarrow> settings \<Rightarrow> img list \<Rightarrow> page \<Rightarrow> page" where
  "scanAndTranslate min_size st images s = processQueue (scan_images min_size st images s)"

text \<open>
  The steps of the content script: a scan of the document's images, or the settling of
  a pending request.
\<close>

inductive step :: "page \<Rightarrow> page \<Rightarrow> bool" where
  scan: "step s (scanAndTranslate min_size st images s)"
| settled: "i \<in> set (in_flight s) \<Longrightarrow> step s (settle i success s)"

inductive reachable :: "page \<Rightarrow> bool" where
  start: "reachable initial_page"
| after: "reachable s \<Longrightarrow> step s s' \<Longrightarrow> reachable s'"

text \<open>
  Replays a history on the set of pending images: a dispatch is accepted only when
  nothing is pending, a completion only of the one pending image.
\<close>

fun replay_event :: "nat list option \<Rightarrow> event \<Rightarrow> nat list option" where
  "replay_event None e = None"
| "replay_event (Some pending) (Dispatched i) = (if pending = [] then Some [i] else None)"
| "replay_event (Some pending) (Finished i success) = (if pending = [i] then Some [] else None)"

definition replay :: "event list \<Rightarrow> nat list option" where
  "replay h = foldl replay_event (Some []) h"

section \<open>The specification's reading of the normaliser\<close>

text \<open>The rows that take part, in row order.\<close>

definition word_rows ::
  "(string \<Rightarrow> rat option) \<Rightarrow> column_index \<Rightarrow> string list \<Rightarrow> tsv_word list" where
  "word_rows num ix rows = List.map_filter (parse_row num ix) rows"

text \<open>The composite key (page, block, paragraph, line).\<close>

definition hier :: "tsv_word \<Rightarrow> string \<times> string \<times> string \<times> string" where
  "hier w = (w_page w, w_block w, w_par w, w_line w)"

text \<open>The distinct keys, each at the place of its first occurrence.\<close>

definition first_keys :: "'k list \<Rightarrow> 'k list" where
  "first_keys ks = rev (remdups (rev ks))"

text \<open>The union of boxes: least left and top, greatest right and bottom.\<close>

definition union_box :: "bbox list \<Rightarrow> bbox" where
  "union_box bs = \<lparr>x0 = Min (set (map x0 bs)), y0 = Min (set (map y0 bs)),
                   x1 = Max (set (map x1 bs)), y1 = Max (set (map y1 bs))\<rparr>"

text \<open>
  The block of one group: the fragment texts joined in row order, the arithmetic mean of
  the confidences, the union of the boxes.
\<close>

definition spec_block :: "string \<Rightarrow> tsv_word list \<Rightarrow> line_block" where
  "spec_block joiner ws =
     \<lparr>block_text = join joiner (map w_text ws),
      block_confidence = sum_list (map w_conf ws) / of_nat (length ws),
      block_bbox = union_box (map w_box ws)\<rparr>"

text \<open>The groups: for each key, the rows that carry it, in row order.\<close>

definition spec_groups :: "tsv_word list \<Rightarrow> tsv_word list list" where
  "spec_groups ws = map (\<lambda>k. filter (\<lambda>w. hier w = k) ws) (first_keys (map hier ws))"

definition spec_normalize :: "string \<Rightarrow> tsv_word list \<Rightarrow> line_block list" where
  "spec_normalize joiner ws = sort_blocks (map (spec_block joiner) (spec_groups ws))"

text \<open>
  The source joins the four hierarchy columns with \<open>-\<close> into one string. The columns
  are index numerals in a recogniser's table; what the grouping needs of them is that
  none contains the separator.
\<close>

definition no_dash :: "string \<Rightarrow> bool" where
  "no_dash s \<longleftrightarrow> CHR ''-'' \<notin> set s"

definition plain_hier :: "tsv_word \<Rightarrow> bool" where
  "plain_hier w \<longleftrightarrow>
     no_dash (w_page w) \<and> no_dash (w_block w) \<and> no_dash (w_par w) \<and> no_dash (w_line w)"

text \<open>The map entry that a list of rows with one key builds up.\<close>

definition group_of :: "tsv_word list \<Rightarrow> line_group" where
  "group_of ws =
     \<lparr>parts = map w_text ws, confs = map w_conf ws, gbox = union_box (map w_box ws)\<rparr>"

definition trimmed_text :: "tsv_word \<Rightarrow> bool" where
  "trimmed_text w \<longleftrightarrow>
     w_text w \<noteq> [] \<and> \<not> is_space (hd (w_text w)) \<and> \<not> is_space (last (w_text w))"

text \<open>
  The conditions under which the loop body reaches the map, each as the source tests
  it, and the record it then builds.
\<close>

definition row_participates :: "(string \<Rightarrow> rat option) \<Rightarrow> column_index \<Rightarrow> string \<Rightarrow> bool" where
  "row_participates num ix row \<longleftrightarrow>
     (let cols = split_on TAB row in
      textIdx ix < length cols \<and>
      Number num (at_index cols (levelIdx ix)) = Some 5 \<and>
      (case Number num (at_index cols (wordIdx ix)) of None \<Rightarrow> False | Some n \<Rightarrow> 0 < n) \<and>
      (case Number num (at_index cols (confIdx ix)) of None \<Rightarrow> False | Some c \<Rightarrow> 0 \<le> c) \<and>
      trim (cols ! textIdx ix) \<noteq> [] \<and>
      Number num (at_index cols (leftIdx ix)) \<noteq> None \<and>
      Number num (at_index cols (topIdx ix)) \<noteq> None \<and>
      (case Number num (at_index cols (widthIdx ix)) of None \<Rightarrow> False | Some n \<Rightarrow> 0 < n) \<and>
      (case Number num (at_index cols (heightIdx ix)) of None \<Rightarrow> False | Some n \<Rightarrow> 0 < n))"

definition row_word :: "(string \<Rightarrow> rat option) \<Rightarrow> column_index \<Rightarrow> string \<Rightarrow> tsv_word" where
  "row_word num ix row =
     (let cols = split_on TAB row;
          vleft = the (Number num (at_index cols (leftIdx ix)));
          vtop = the (Number num (at_index cols (topIdx ix)));
          vwidth = the (Number num (at_index cols (widthIdx ix)));
          vheight = the (Number num (at_index cols (heightIdx ix)))
      in \<lparr>w_page = template (at_index cols (pageIdx ix)),
          w_block = template (at_index cols (blockIdx ix)),
          w_par = template (at_index cols (parIdx ix)),
          w_line = template (at_index cols (lineIdx ix)),
          w_text = trim (cols ! textIdx ix),
          w_conf = the (Number num (at_index cols (confIdx ix))),
          w_box = \<lparr>x0 = vleft, y0 = vtop, x1 = vleft + vwidth, y1 = vtop + vheight\<rparr>\<rparr>)"

section \<open>Example tables\<close>

definition tsv_line :: "string list \<Rightarrow> string" where
  "tsv_line cols = join [TAB] cols"

definition tsv_table :: "string list list \<Rightarrow> string" where
  "tsv_table rows = join [LF] (map tsv_line rows)"

definition tsv_header :: "string list" where
  "tsv_header =
     [''level'', ''page_num'', ''block_num'', ''par_num'', ''line_num'', ''word_num'',
      ''left'', ''top'', ''width'', ''height'', ''conf'', ''text'']"

definition header_without_conf :: "string list" where
  "header_without_conf =
     [''level'', ''page_num'', ''block_num'', ''par_num'', ''line_num'', ''word_num'',
      ''left'', ''top'', ''width'', ''height'', ''text'']"

definition std_index :: column_index where
  "std_index =
     \<lparr>levelIdx = 0, pageIdx = 1, blockIdx = 2, parIdx = 3, lineIdx = 4, wordIdx = 5,
      leftIdx = 6, topIdx = 7, widthIdx = 8, heightIdx = 9, confIdx = 10, textIdx = 11\<rparr>"

definition hello_row :: "string list" where
  "hello_row =
     [''5'', ''1'', ''1'', ''1'', ''1'', ''1'', ''0'', ''0'', ''10'', ''10'', ''90'', ''Hello'']"

definition world_row :: "string list" where
  "world_row =
     [''5'', ''1'', ''1'', ''1'', ''1'', ''2'', ''10'', ''0'', ''10'', ''10'', ''80'', ''World'']"

definition hello_word :: tsv_word where
  "hello_word =
     \<lparr>w_page = ''1'', w_block = ''1'', w_par = ''1'', w_line = ''1'', w_text = ''Hello'',
      w_conf = 90, w_box = \<lparr>x0 = 0, y0 = 0, x1 = 10, y1 = 10\<rparr>\<rparr>"

definition world_word :: tsv_word where
  "world_word =
     \<lparr>w_page = ''1'', w_block = ''1'', w_par = ''1'', w_line = ''1'', w_text = ''World'',
      w_conf = 80, w_box = \<lparr>x0 = 10, y0 = 0, x1 = 20, y1 = 10\<rparr>\<rparr>"

definition hello_world_table :: string where
  "hello_world_table = tsv_table [tsv_header, hello_row, world_row]"

definition table_without_conf :: string where
  "table_without_conf =
     tsv_table [header_without_conf,
       [''5'', ''1'', ''1'', ''1'', ''1'', ''1'', ''0'', ''0'', ''10'', ''10'', ''Hello'']]"

text \<open>A word row like \<open>hello_row\<close>, with confidence 0.\<close>

definition zero_conf_row :: "string list" where
  "zero_conf_row =
     [''5'', ''1'', ''1'', ''1'', ''1'', ''1'', ''0'', ''0'', ''10'', ''10'', ''0'', ''Hello'']"

definition zero_conf_table :: string where
  "zero_conf_table = tsv_table [tsv_header, zero_conf_row]"

text \<open>
  A line-level row, a word row with confidence \<open>-1\<close>, a word row with blank text, and the
  two word rows of \<open>hello_world_table\<close> between them.
\<close>

definition line_level_row :: "string list" where
  "line_level_row =
     [''4'', ''1'', ''1'', ''1'', ''1'', ''0'', ''0'', ''0'', ''20'', ''10'', ''-1'', []]"

definition negative_conf_row :: "string list" where
  "negative_conf_row =
     [''5'', ''1'', ''1'', ''1'', ''1'', ''3'', ''20'', ''0'', ''10'', ''10'', ''-1'', ''x'']"

definition blank_text_row :: "string list" where
  "blank_text_row =
     [''5'', ''1'', ''1'', ''1'', ''1'', ''4'', ''30'', ''0'', ''10'', ''10'', ''95'', ''  '']"

definition mixed_table :: string where
  "mixed_table =
     tsv_table
       [tsv_header, line_level_row, hello_row, negative_conf_row, blank_text_row, world_row]"

text \<open>
  Two word rows of different composite keys, (page \<open>1-1\<close>, block \<open>1\<close>) and (page \<open>1\<close>,
  block \<open>1-1\<close>), whose cells print to the same key string \<open>1-1-1-1-1\<close>.
\<close>

definition dash_row_a :: "string list" where
  "dash_row_a =
     [''5'', ''1-1'', ''1'', ''1'', ''1'', ''1'', ''0'', ''0'', ''10'', ''10'', ''90'', ''a'']"

definition dash_row_b :: "string list" where
  "dash_row_b =
     [''5'', ''1'', ''1-1'', ''1'', ''1'', ''1'', ''10'', ''0'', ''10'', ''10'', ''80'', ''b'']"

definition dash_word_a :: tsv_word where
  "dash_word_a =
     \<lparr>w_page = ''1-1'', w_block = ''1'', w_par = ''1'', w_line = ''1'', w_text = ''a'',
      w_conf = 90, w_box = \<lparr>x0 = 0, y0 = 0, x1 = 10, y1 = 10\<rparr>\<rparr>"

definition dash_word_b :: tsv_word where
  "dash_word_b =
     \<lparr>w_page = ''1'', w_block = ''1-1'', w_par = ''1'', w_line = ''1'', w_text = ''b'',
      w_conf = 80, w_box = \<lparr>x0 = 10, y0 = 0, x1 = 20, y1 = 10\<rparr>\<rparr>"

definition dash_table :: string where
  "dash_table = tsv_table [tsv_header, dash_row_a, dash_row_b]"

section \<open>The tiers of the fetch resolver, one by one\<close>

text \<open>What each tier gives when it is invoked: a blob, or the error it throws.\<close>

definition spoofed_outcome :: "'blob network \<Rightarrow> string \<Rightarrow> fetch_error + 'blob" where
  "spoofed_outcome net pageUrl =
     (if pageUrl = [] then unchecked_blob (spoofed_fetch net)
      else checked_blob (spoofed_fetch net))"

definition direct_outcome :: "'blob network \<Rightarrow> fetch_error + 'blob" where
  "direct_outcome net = checked_blob (direct_fetch net)"

definition relayed_outcome :: "'blob network \<Rightarrow> fetch_error + 'blob" where
  "relayed_outcome net = relayed_blob (content_reply net)"

text \<open>Every installed listener is a closure created earlier.\<close>

definition closures_known :: "browser \<Rightarrow> bool" where
  "closures_known b \<longleftrightarrow>
     list_all (\<lambda>l. l < next_closure b) (onBeforeSendHeaders b) \<and>
     list_all (\<lambda>l. l < next_closure b) (onHeadersReceived b)"

text \<open>
  A network on which the image host refuses the background script (status 403 with the
  spoofed referrer, a rejected direct request) and the page's own context succeeds; one
  on which every tier fails; a browser state with listeners of other requests installed.
\<close>

definition hotlink_network :: "string network" where
  "hotlink_network =
     \<lparr>spoofed_fetch = Answered 403 (Inr ''denied''),
      direct_fetch = Rejected ''blocked'',
      content_reply = RelayAnswered (Reply True (Some ''bytes'') None)\<rparr>"

definition dead_network :: "string network" where
  "dead_network =
     \<lparr>spoofed_fetch = Answered 403 (Inr ''denied''),
      direct_fetch = Rejected ''blocked'',
      content_reply = RelayAnswered (Reply False None (Some ''HTTP 403''))\<rparr>"

definition busy_browser :: browser where
  "busy_browser =
     \<lparr>onBeforeSendHeaders = [0, 4], onHeadersReceived = [1, 5], next_closure = 6,
      requests = []\<rparr>"

section \<open>Blocks that survive the filter\<close>







definition boxless_block :: ocr_block where
  "boxless_block = \<lparr>ob_confidence = Some 90, ob_conf = None, ob_text = Some ''Hi'', ob_bbox = None\<rparr>"


definition upper :: "string \<Rightarrow> string + string" where
  "upper t = Inr (''<'' @ t @ ''>'')"




section \<open>Example overlay\<close>

definition example_translated :: translated_block where
  "example_translated =
     \<lparr>tb_text = ''Hola'', tb_original = ''Hello'',
      tb_bbox = \<lparr>x0 = 100, y0 = 100, x1 = 200, y1 = 150\<rparr>\<rparr>"

section \<open>The scheduler's bookkeeping\<close>

text \<open>
  The counter is the number of pending requests, and the pending requests are what the
  history replays to.
\<close>

definition consistent :: "page \<Rightarrow> bool" where
  "consistent s \<longleftrightarrow>
     activeProcessors s = int (length (in_flight s)) \<and> replay (history s) = Some (in_flight s)"




text \<open>Example settings and a document with three images large enough to translate.\<close>

definition en_es :: settings where
  "en_es = \<lparr>source = ''en'', target = ''es''\<rparr>"

definition three_images :: "img list" where
  "three_images =
     [\<lparr>img_id = 11, img_width = 200, img_height = 100\<rparr>,
      \<lparr>img_id = 12, img_width = 300, img_height = 300\<rparr>,
      \<lparr>img_id = 13, img_width = 640, img_height = 480\<rparr>]"

section \<open>Properties of the normaliser\<close>

lemma indexOf_None_iff: "indexOf xs x = None \<longleftrightarrow> x \<notin> set xs"
  by (induction xs) auto

lemma locate_columns_missing:
  assumes "c \<in> set required_columns" and "c \<notin> set header"
  shows "locate_columns header = None"
proof -
  from assms have "indexOf header c = None" by (simp add: indexOf_None_iff)
  with assms(1) have "list_ex (\<lambda>v. v = None) (map (indexOf header) required_columns)"
    by (force simp: list_ex_iff image_iff)
  then show ?thesis by (simp add: locate_columns_def)
qed

lemma group_rows_word_rows_gen:
  "foldl (row_step num ix) g rows = foldl add_word g (word_rows num ix rows)"
  by (induction rows arbitrary: g)
     (simp_all add: word_rows_def row_step_def split: option.splits)

lemma group_rows_word_rows:
  "group_rows num ix rows = foldl add_word [] (word_rows num ix rows)"
  by (simp add: group_rows_def group_rows_word_rows_gen)

lemma first_keys_snoc:
  "first_keys (ks @ [k]) = (if k \<in> set ks then first_keys ks else first_keys ks @ [k])"
  by (simp add: first_keys_def)

lemma set_first_keys [simp]: "set (first_keys ks) = set ks"
  by (simp add: first_keys_def)

lemma distinct_first_keys [simp]: "distinct (first_keys ks)"
  by (simp add: first_keys_def)

lemma update_fresh:
  "k \<notin> fst ` set al \<Longrightarrow> AList.update k v al = al @ [(k, v)]"
  by (induction al) auto

lemma update_map_keys:
  "AList.update k v (map (\<lambda>j. (j, f j)) ks) =
     (if k \<in> set ks then map (\<lambda>j. (j, if j = k then v else f j)) ks
      else map (\<lambda>j. (j, f j)) ks @ [(k, v)])"
  if "distinct ks"
  using that by (induction ks) auto

lemma map_of_map_keys:
  "map_of (map (\<lambda>j. (j, f j)) ks) k = (if k \<in> set ks then Some (f k) else None)"
  by (induction ks) auto

lemma union_box_single: "union_box [b] = b"
  by (simp add: union_box_def)

lemma union_box_snoc:
  "bs \<noteq> [] \<Longrightarrow> union_box (bs @ [b]) =
     \<lparr>x0 = min (x0 (union_box bs)) (x0 b), y0 = min (y0 (union_box bs)) (y0 b),
      x1 = max (x1 (union_box bs)) (x1 b), y1 = max (y1 (union_box bs)) (y1 b)\<rparr>"
  by (simp add: union_box_def min.commute max.commute)

lemma code_groups:
  "foldl add_word [] ws =
     map (\<lambda>k. (k, group_of (filter (\<lambda>w. group_key w = k) ws))) (first_keys (map group_key ws))"
proof (induction ws rule: rev_induct)
  case Nil
  show ?case by (simp add: first_keys_def)
next
  case (snoc w ws)
  let ?K = "first_keys (map group_key ws)"
  let ?f = "\<lambda>ws k. group_of (filter (\<lambda>w. group_key w = k) ws)"
  have step: "foldl add_word [] (ws @ [w]) = add_word (map (\<lambda>k. (k, ?f ws k)) ?K) w"
    using snoc.IH by simp
  show ?case
  proof (cases "group_key w \<in> set (map group_key ws)")
    case False
    then have none: "map_of (map (\<lambda>k. (k, ?f ws k)) ?K) (group_key w) = None"
      by (simp add: map_of_map_keys)
    have same: "\<And>k. k \<in> set ?K \<Longrightarrow> ?f (ws @ [w]) k = ?f ws k"
      using False by auto
    have new: "?f (ws @ [w]) (group_key w) = \<lparr>parts = [w_text w], confs = [w_conf w], gbox = w_box w\<rparr>"
    proof -
      have "filter (\<lambda>v. group_key v = group_key w) ws = []"
        using False by (force simp: filter_empty_conv image_iff)
      then show ?thesis by (simp add: group_of_def union_box_single)
    qed
    have "add_word (map (\<lambda>k. (k, ?f ws k)) ?K) w
        = map (\<lambda>k. (k, ?f ws k)) ?K @ [(group_key w, \<lparr>parts = [w_text w], confs = [w_conf w], gbox = w_box w\<rparr>)]"
      using False by (simp add: add_word_def none update_map_keys)
    also have "\<dots> = map (\<lambda>k. (k, ?f (ws @ [w]) k)) (?K @ [group_key w])"
      using same new by simp
    finally have A: "add_word (map (\<lambda>k. (k, ?f ws k)) ?K) w
        = map (\<lambda>k. (k, ?f (ws @ [w]) k)) (?K @ [group_key w])" .
    have K: "first_keys (map group_key (ws @ [w])) = ?K @ [group_key w]"
      using False by (simp add: first_keys_snoc)
    show ?thesis by (simp only: step A K)
  next
    case True
    let ?g = "filter (\<lambda>v. group_key v = group_key w) ws"
    have ne: "?g \<noteq> []"
      using True by (auto simp: filter_empty_conv)
    have some: "map_of (map (\<lambda>k. (k, ?f ws k)) ?K) (group_key w) = Some (group_of ?g)"
      using True by (simp add: map_of_map_keys)
    have other: "\<And>k. k \<noteq> group_key w \<Longrightarrow> ?f (ws @ [w]) k = ?f ws k"
      by auto
    have upd: "?f (ws @ [w]) (group_key w) =
       \<lparr>parts = parts (group_of ?g) @ [w_text w], confs = confs (group_of ?g) @ [w_conf w],
        gbox = \<lparr>x0 = min (x0 (gbox (group_of ?g))) (x0 (w_box w)),
                y0 = min (y0 (gbox (group_of ?g))) (y0 (w_box w)),
                x1 = max (x1 (gbox (group_of ?g))) (x1 (w_box w)),
                y1 = max (y1 (gbox (group_of ?g))) (y1 (w_box w))\<rparr>\<rparr>"
      using ne by (simp add: group_of_def union_box_snoc)
    have "add_word (map (\<lambda>k. (k, ?f ws k)) ?K) w
        = map (\<lambda>k. (k, if k = group_key w then ?f (ws @ [w]) (group_key w) else ?f ws k)) ?K"
      using True unfolding add_word_def some upd by (simp add: update_map_keys)
    also have "\<dots> = map (\<lambda>k. (k, ?f (ws @ [w]) k)) ?K"
      using other by (intro map_cong refl) auto
    finally have A: "add_word (map (\<lambda>k. (k, ?f ws k)) ?K) w = map (\<lambda>k. (k, ?f (ws @ [w]) k)) ?K" .
    have K: "first_keys (map group_key (ws @ [w])) = ?K"
      using True by (simp add: first_keys_snoc)
    show ?thesis by (simp only: step A K)
  qed
qed

lemma foldl_plus_sum_list: "foldl (+) a xs = a + sum_list (xs :: rat list)"
  by (induction xs arbitrary: a) (simp_all add: add.assoc)

lemma trim_id:
  assumes "s \<noteq> []" "\<not> is_space (hd s)" "\<not> is_space (last s)"
  shows "trim s = s"
proof -
  from assms have a: "dropWhile is_space s = s"
    by (cases s) auto
  from assms have "rev s \<noteq> []" "\<not> is_space (hd (rev s))"
    by (simp_all add: hd_rev)
  then have b: "dropWhile is_space (rev s) = rev s"
    by (cases "rev s") auto
  show ?thesis by (simp add: trim_def a b)
qed

lemma trim_ends:
  assumes "trim s \<noteq> []"
  shows "\<not> is_space (hd (trim s)) \<and> \<not> is_space (last (trim s))"
proof -
  let ?d = "dropWhile is_space s"
  let ?e = "dropWhile is_space (rev ?d)"
  from assms have e: "?e \<noteq> []" by (simp add: trim_def)
  have d: "?d \<noteq> []"
  proof
    assume "?d = []"
    then have "?e = []" by (simp only: rev.simps dropWhile.simps)
    with e show False by blast
  qed
  have 1: "\<not> is_space (hd ?e)" using e by (rule hd_dropWhile)
  have "last ?e = last (rev ?d)"
    using e by (metis last_appendR takeWhile_dropWhile_id)
  also have "\<dots> = hd ?d" using d by (simp add: last_rev)
  finally have 2: "\<not> is_space (last ?e)" using d hd_dropWhile by metis
  show ?thesis using e 1 2 by (simp add: trim_def hd_rev last_rev)
qed

lemma join_ends:
  assumes "ps \<noteq> []" "\<forall>p\<in>set ps. p \<noteq> []"
  shows "join sep ps \<noteq> [] \<and> hd (join sep ps) = hd (hd ps) \<and> last (join sep ps) = last (last ps)"
  using assms by (induction sep ps rule: join.induct) auto

lemma trim_join:
  assumes "ps \<noteq> []" "\<forall>p\<in>set ps. p \<noteq> [] \<and> \<not> is_space (hd p) \<and> \<not> is_space (last p)"
  shows "trim (join sep ps) = join sep ps \<and> join sep ps \<noteq> []"
proof -
  from assms have j: "join sep ps \<noteq> []" "hd (join sep ps) = hd (hd ps)" "last (join sep ps) = last (last ps)"
    using join_ends [of ps sep] by auto
  from assms have "hd ps \<in> set ps" "last ps \<in> set ps" by auto
  with assms(2) j show ?thesis by (auto intro!: trim_id)
qed

lemma parse_row_trimmed:
  assumes "parse_row num ix row = Some w"
  shows "trimmed_text w"
proof -
  from assms obtain s where "w_text w = trim s" "trim s \<noteq> []"
    by (auto simp: parse_row_def Let_def split: if_splits option.splits prod.splits)
  then show ?thesis using trim_ends [of s] by (simp add: trimmed_text_def)
qed

lemma emit_block_group_of:
  assumes "ws \<noteq> []" "\<forall>w\<in>set ws. trimmed_text w"
  shows "emit_block joiner (group_of ws) = Some (spec_block joiner ws)"
proof -
  have "trim (join joiner (map w_text ws)) = join joiner (map w_text ws) \<and> join joiner (map w_text ws) \<noteq> []"
    using assms by (intro trim_join) (auto simp: trimmed_text_def)
  then show ?thesis
    using assms(1)
    by (simp add: emit_block_def group_of_def spec_block_def Let_def foldl_plus_sum_list)
qed

lemma dash_split:
  assumes "no_dash a" "no_dash b" "a @ CHR ''-'' # x = b @ CHR ''-'' # y"
  shows "a = b \<and> x = y"
  using assms
proof (induction a arbitrary: b)
  case Nil
  then show ?case by (cases b) (auto simp: no_dash_def)
next
  case (Cons c a)
  then show ?case by (cases b) (auto simp: no_dash_def)
qed

lemma group_key_inj:
  assumes "plain_hier v" "plain_hier w"
  shows "group_key v = group_key w \<longleftrightarrow> hier v = hier w"
proof
  assume eq: "group_key v = group_key w"
  from assms have nd: "no_dash (w_page v)" "no_dash (w_page w)" "no_dash (w_block v)"
    "no_dash (w_block w)" "no_dash (w_par v)" "no_dash (w_par w)"
    by (simp_all add: plain_hier_def)
  from eq have 1: "w_page v @ CHR ''-'' # (w_block v @ CHR ''-'' # (w_par v @ CHR ''-'' # w_line v))
      = w_page w @ CHR ''-'' # (w_block w @ CHR ''-'' # (w_par w @ CHR ''-'' # w_line w))"
    by (simp add: group_key_def)
  from dash_split [OF nd(1,2) 1]
  have p: "w_page v = w_page w"
    and 2: "w_block v @ CHR ''-'' # (w_par v @ CHR ''-'' # w_line v)
      = w_block w @ CHR ''-'' # (w_par w @ CHR ''-'' # w_line w)" by simp_all
  from dash_split [OF nd(3,4) 2]
  have b: "w_block v = w_block w"
    and 3: "w_par v @ CHR ''-'' # w_line v = w_par w @ CHR ''-'' # w_line w" by simp_all
  from dash_split [OF nd(5,6) 3] p b show "hier v = hier w"
    by (simp add: hier_def)
next
  assume "hier v = hier w"
  then show "group_key v = group_key w" by (simp add: hier_def group_key_def)
qed

lemma first_keys_map_inj:
  assumes "inj_on f (set ks)"
  shows "first_keys (map f ks) = map f (first_keys ks)"
proof -
  have inj: "inj_on f (set (remdups (rev ks)))" using assms by simp
  have "remdups (map f (rev ks)) = remdups (map f (remdups (rev ks)))"
    by (simp add: remdups_map_remdups)
  also have "\<dots> = map f (remdups (rev ks))"
    using inj by (simp add: distinct_map)
  finally show ?thesis by (simp add: first_keys_def rev_map)
qed

lemma map_filter_all_Some:
  "(\<And>x. x \<in> set xs \<Longrightarrow> f x = Some (g x)) \<Longrightarrow> List.map_filter f xs = map g xs"
  by (induction xs) simp_all

lemma map_filter_map: "List.map_filter f (map h xs) = List.map_filter (f \<circ> h) xs"
  by (induction xs) (simp_all split: option.splits)

lemma code_groups_hier:
  assumes plain: "\<forall>w\<in>set ws. plain_hier w"
  shows "map snd (foldl add_word [] ws) = map group_of (spec_groups ws)"
proof -
  define kf :: "string \<times> string \<times> string \<times> string \<Rightarrow> string"
    where "kf = (\<lambda>(p, b, r, l). p @ ''-'' @ b @ ''-'' @ r @ ''-'' @ l)"
  have gk: "group_key w = kf (hier w)" for w
    by (simp add: kf_def hier_def group_key_def)
  have inj: "inj_on kf (set (map hier ws))"
  proof (rule inj_onI)
    fix a b assume "a \<in> set (map hier ws)" "b \<in> set (map hier ws)" "kf a = kf b"
    then obtain v w where "v \<in> set ws" "w \<in> set ws" "a = hier v" "b = hier w" by auto
    with plain \<open>kf a = kf b\<close> show "a = b"
      using group_key_inj [of v w] by (simp add: gk)
  qed
  have keys: "first_keys (map group_key ws) = map kf (first_keys (map hier ws))"
    using first_keys_map_inj [OF inj] by (simp add: gk [abs_def] comp_def)
  have filt: "filter (\<lambda>w. group_key w = kf k) ws = filter (\<lambda>w. hier w = k) ws"
    if "k \<in> set (map hier ws)" for k
  proof (rule filter_cong [OF refl])
    fix w assume "w \<in> set ws"
    then have "hier w \<in> set (map hier ws)" by simp
    with inj that show "(group_key w = kf k) = (hier w = k)"
      by (auto simp: gk dest: inj_onD)
  qed
  show ?thesis
    unfolding code_groups keys spec_groups_def
    by (simp add: comp_def filt cong: map_cong)
qed

lemma spec_groups_members:
  assumes "g \<in> set (spec_groups ws)"
  shows "g \<noteq> [] \<and> set g \<subseteq> set ws"
proof -
  from assms have "g \<in> (\<lambda>k. filter (\<lambda>w. hier w = k) ws) ` set (map hier ws)"
    by (simp add: spec_groups_def)
  then obtain k where k: "k \<in> set (map hier ws)" and g: "g = filter (\<lambda>w. hier w = k) ws"
    by blast
  from k obtain w where "w \<in> set ws" "hier w = k" by auto
  then have "w \<in> set g" by (simp add: g)
  then have "g \<noteq> []" by auto
  moreover have "set g \<subseteq> set ws" by (auto simp: g)
  ultimately show ?thesis by simp
qed

lemma emit_blocks_code_groups:
  assumes "\<forall>w\<in>set ws. plain_hier w" "\<forall>w\<in>set ws. trimmed_text w"
  shows "emit_blocks joiner (foldl add_word [] ws) = map (spec_block joiner) (spec_groups ws)"
proof -
  have "emit_blocks joiner al = List.map_filter (emit_block joiner) (map snd al)" for al
    by (induction al) (auto simp: emit_blocks_def split: option.splits)
  then have "emit_blocks joiner (foldl add_word [] ws)
      = List.map_filter (emit_block joiner) (map group_of (spec_groups ws))"
    by (simp add: code_groups_hier [OF assms(1)])
  also have "\<dots> = List.map_filter (\<lambda>g. emit_block joiner (group_of g)) (spec_groups ws)"
    by (simp add: map_filter_map comp_def)
  also have "\<dots> = map (spec_block joiner) (spec_groups ws)"
  proof (rule map_filter_all_Some)
    fix g assume "g \<in> set (spec_groups ws)"
    then have "g \<noteq> []" "set g \<subseteq> set ws" using spec_groups_members by auto
    with assms(2) show "emit_block joiner (group_of g) = Some (spec_block joiner g)"
      by (intro emit_block_group_of) auto
  qed
  finally show ?thesis .
qed

lemma word_rows_trimmed: "\<forall>w\<in>set (word_rows num ix rows). trimmed_text w"
  by (auto simp: word_rows_def List.map_filter_def intro: parse_row_trimmed)

lemma tsv_rows_Nil [simp]: "tsv_rows [] = []"
  by (simp add: tsv_rows_def)

text \<open>
  C8. When the header row of a table lacks one of the twelve required column names, the
  normaliser returns the empty sequence of line blocks.
\<close>

theorem missing_column_yields_no_blocks:
  assumes "tsv_rows s = header # rest"
    and "c \<in> set required_columns"
    and "c \<notin> set (split_on TAB header)"
  shows "parseTsvToLineBlocks num (Some s) joiner = []"
  using assms locate_columns_missing [OF assms(2,3)]
  by (simp add: parseTsvToLineBlocks_def Let_def)

text \<open>The table \<open>table_without_conf\<close> has no \<open>conf\<close> column and yields no block.\<close>

theorem missing_column_yields_no_blocks_witness:
  "parseTsvToLineBlocks Number_decimal (Some table_without_conf) '' '' = []"
proof -
  have rows: "tsv_rows table_without_conf =
      tsv_line header_without_conf #
      [tsv_line [''5'', ''1'', ''1'', ''1'', ''1'', ''1'', ''0'', ''0'', ''10'', ''10'', ''Hello'']]"
    by code_simp
  have req: "''conf'' \<in> set required_columns"
    by (simp add: required_columns_def)
  have hdr: "''conf'' \<notin> set (split_on TAB (tsv_line header_without_conf))"
    by code_simp
  show ?thesis
    by (rule missing_column_yields_no_blocks [OF rows req hdr])
qed

text \<open>
  C1, as the code has it. When no page, block, paragraph or line cell of a participating
  row contains the character \<open>-\<close>, which the source puts between the four cells to form
  its key, the normaliser groups the participating word rows by the composite key (page,
  block, paragraph, line) and returns one block for each group: its text is the fragment
  texts joined with the joiner in row order, its confidence is the arithmetic mean of the
  confidences, its box is the union of the boxes.
\<close>

theorem normalize_groups_word_rows:
  assumes "tsv_rows s = header # rest"
    and "locate_columns (split_on TAB header) = Some ix"
    and "\<forall>w\<in>set (word_rows num ix rest). plain_hier w"
  shows "parseTsvToLineBlocks num (Some s) joiner = spec_normalize joiner (word_rows num ix rest)"
proof -
  from assms(1) have ne: "s \<noteq> []" by auto
  have core: "sort_blocks (emit_blocks joiner (group_rows num ix rest))
      = spec_normalize joiner (word_rows num ix rest)"
    using emit_blocks_code_groups [OF assms(3) word_rows_trimmed]
    by (simp add: group_rows_word_rows spec_normalize_def)
  show ?thesis
  proof (cases rest)
    case Nil
    with core have "spec_normalize joiner (word_rows num ix rest) = []"
      by (simp add: group_rows_def emit_blocks_def sort_blocks_def)
    with Nil assms(1) ne show ?thesis by (simp add: parseTsvToLineBlocks_def)
  next
    case (Cons r rs)
    with assms(1,2) ne core show ?thesis by (simp add: parseTsvToLineBlocks_def)
  qed
qed

text \<open>
  The two rows \<open>Hello\<close> (box (0,0,10,10), confidence 90) and \<open>World\<close> (box (10,0,20,10),
  confidence 80) of one line, with the space joiner, give the one block \<open>Hello World\<close>
  with confidence 85 and box (0,0,20,10).
\<close>

theorem normalize_groups_word_rows_witness:
  "parseTsvToLineBlocks Number_decimal (Some hello_world_table) '' '' =
     [\<lparr>block_text = ''Hello World'', block_confidence = 85,
       block_bbox = \<lparr>x0 = 0, y0 = 0, x1 = 20, y1 = 10\<rparr>\<rparr>]"
proof -
  have rows: "tsv_rows hello_world_table =
      tsv_line tsv_header # [tsv_line hello_row, tsv_line world_row]"
    by code_simp
  have cols: "locate_columns (split_on TAB (tsv_line tsv_header)) = Some std_index"
    by code_simp
  have ws: "word_rows Number_decimal std_index [tsv_line hello_row, tsv_line world_row]
      = [hello_word, world_word]"
    by code_simp
  have plain: "\<forall>w\<in>set [hello_word, world_word]. plain_hier w"
    by (simp add: plain_hier_def no_dash_def hello_word_def world_word_def)
  have spec: "spec_normalize '' '' [hello_word, world_word] =
      [\<lparr>block_text = ''Hello World'', block_confidence = 85,
        block_bbox = \<lparr>x0 = 0, y0 = 0, x1 = 20, y1 = 10\<rparr>\<rparr>]"
    by (simp add: spec_normalize_def spec_groups_def first_keys_def hier_def hello_word_def
        world_word_def spec_block_def union_box_def sort_blocks_def)
  show ?thesis
    using normalize_groups_word_rows [OF rows cols, of Number_decimal "'' ''"] plain
    by (simp only: ws spec)
qed

text \<open>
  Without that condition the grouping is not by the composite key: the rows of
  \<open>dash_table\<close> differ in page and block, and the normaliser merges them into the one
  block \<open>a b\<close>, where grouping by (page, block, paragraph, line) gives two blocks.
\<close>

theorem key_string_merges_groups_counterexample:
  "parseTsvToLineBlocks Number_decimal (Some dash_table) '' '' =
     [\<lparr>block_text = ''a b'', block_confidence = 85,
       block_bbox = \<lparr>x0 = 0, y0 = 0, x1 = 20, y1 = 10\<rparr>\<rparr>] \<and>
   spec_normalize '' ''
       (word_rows Number_decimal std_index [tsv_line dash_row_a, tsv_line dash_row_b]) =
     [\<lparr>block_text = ''a'', block_confidence = 90,
       block_bbox = \<lparr>x0 = 0, y0 = 0, x1 = 10, y1 = 10\<rparr>\<rparr>,
      \<lparr>block_text = ''b'', block_confidence = 80,
       block_bbox = \<lparr>x0 = 10, y0 = 0, x1 = 20, y1 = 10\<rparr>\<rparr>] \<and>
   hier dash_word_a \<noteq> hier dash_word_b \<and>
   group_key dash_word_a = group_key dash_word_b"
proof -
  have code: "parseTsvToLineBlocks Number_decimal (Some dash_table) '' '' =
     [\<lparr>block_text = ''a b'', block_confidence = 85,
       block_bbox = \<lparr>x0 = 0, y0 = 0, x1 = 20, y1 = 10\<rparr>\<rparr>]"
    by code_simp
  have ws: "word_rows Number_decimal std_index [tsv_line dash_row_a, tsv_line dash_row_b]
      = [dash_word_a, dash_word_b]"
    by code_simp
  have spec: "spec_normalize '' '' [dash_word_a, dash_word_b] =
     [\<lparr>block_text = ''a'', block_confidence = 90,
       block_bbox = \<lparr>x0 = 0, y0 = 0, x1 = 10, y1 = 10\<rparr>\<rparr>,
      \<lparr>block_text = ''b'', block_confidence = 80,
       block_bbox = \<lparr>x0 = 10, y0 = 0, x1 = 20, y1 = 10\<rparr>\<rparr>]"
    by (simp add: spec_normalize_def spec_groups_def first_keys_def hier_def dash_word_a_def
        dash_word_b_def spec_block_def union_box_def sort_blocks_def less_eq_prod_def)
  have keys: "hier dash_word_a \<noteq> hier dash_word_b"
    "group_key dash_word_a = group_key dash_word_b"
    by (simp_all add: hier_def group_key_def dash_word_a_def dash_word_b_def)
  from code spec keys show ?thesis by (simp only: ws) simp
qed

lemma parse_row_participates:
  "parse_row num ix row =
     (if row_participates num ix row then Some (row_word num ix row) else None)"
proof (cases "length (split_on TAB row) \<le> textIdx ix")
  case True
  then show ?thesis by (simp add: parse_row_def row_participates_def Let_def)
next
  case False
  then have tcol: "at_index (split_on TAB row) (textIdx ix) = Some (split_on TAB row ! textIdx ix)"
    by (simp add: at_index_def)
  show ?thesis
    using False
    by (cases "Number num (at_index (split_on TAB row) (wordIdx ix))";
        cases "Number num (at_index (split_on TAB row) (confIdx ix))";
        cases "Number num (at_index (split_on TAB row) (leftIdx ix))";
        cases "Number num (at_index (split_on TAB row) (topIdx ix))";
        cases "Number num (at_index (split_on TAB row) (widthIdx ix))";
        cases "Number num (at_index (split_on TAB row) (heightIdx ix))")
       (simp_all add: parse_row_def row_participates_def row_word_def Let_def tcol not_less not_le)
qed

lemma word_rows_participating:
  "word_rows num ix rows = map (row_word num ix) (filter (row_participates num ix) rows)"
  by (induction rows) (simp_all add: word_rows_def parse_row_participates)

text \<open>
  C4, as the code has it. Only word-level rows (level 5 with a positive word number) take
  part, and a row with a negative or non-numeric confidence, with blank text, with too few
  columns or with an unusable box is passed over by itself: the blocks are those built
  from the remaining rows. A word row with confidence 0 takes part.
\<close>

theorem only_participating_rows_count:
  assumes "tsv_rows s = header # rest"
    and "locate_columns (split_on TAB header) = Some ix"
  shows "parseTsvToLineBlocks num (Some s) joiner =
     sort_blocks (emit_blocks joiner
       (foldl add_word [] (map (row_word num ix) (filter (row_participates num ix) rest))))"
proof -
  from assms(1) have ne: "s \<noteq> []" by auto
  show ?thesis
  proof (cases rest)
    case Nil
    with assms(1) ne show ?thesis
      by (simp add: parseTsvToLineBlocks_def emit_blocks_def sort_blocks_def)
  next
    case (Cons r rs)
    with assms ne show ?thesis
      by (simp add: parseTsvToLineBlocks_def group_rows_word_rows word_rows_participating)
  qed
qed

text \<open>
  In \<open>mixed_table\<close> the line-level row, the row with confidence \<open>-1\<close> and the row with
  blank text are passed over; the two remaining rows give the block \<open>Hello World\<close>.
\<close>

theorem only_participating_rows_count_witness:
  "parseTsvToLineBlocks Number_decimal (Some mixed_table) '' '' =
     [\<lparr>block_text = ''Hello World'', block_confidence = 85,
       block_bbox = \<lparr>x0 = 0, y0 = 0, x1 = 20, y1 = 10\<rparr>\<rparr>]"
proof -
  let ?rest = "[tsv_line line_level_row, tsv_line hello_row, tsv_line negative_conf_row,
      tsv_line blank_text_row, tsv_line world_row]"
  have rows: "tsv_rows mixed_table = tsv_line tsv_header # ?rest"
    by code_simp
  have cols: "locate_columns (split_on TAB (tsv_line tsv_header)) = Some std_index"
    by code_simp
  have kept: "filter (row_participates Number_decimal std_index) ?rest
      = [tsv_line hello_row, tsv_line world_row]"
    by code_simp
  have built: "sort_blocks (emit_blocks '' ''
       (foldl add_word [] (map (row_word Number_decimal std_index)
          [tsv_line hello_row, tsv_line world_row]))) =
     [\<lparr>block_text = ''Hello World'', block_confidence = 85,
       block_bbox = \<lparr>x0 = 0, y0 = 0, x1 = 20, y1 = 10\<rparr>\<rparr>]"
    by code_simp
  show ?thesis
    using only_participating_rows_count [OF rows cols, of Number_decimal "'' ''"]
    by (simp only: kept built)
qed

text \<open>
  A word row with confidence 0 is not skipped: the table whose only row is such a row
  yields a block, of confidence 0.
\<close>

theorem zero_confidence_row_kept_counterexample:
  "parseTsvToLineBlocks Number_decimal (Some zero_conf_table) '' '' =
     [\<lparr>block_text = ''Hello'', block_confidence = 0,
       block_bbox = \<lparr>x0 = 0, y0 = 0, x1 = 10, y1 = 10\<rparr>\<rparr>]"
  by code_simp

section \<open>Properties of the fetch resolver\<close>

lemma fetchImageWithReferrer_result:
  "fst (fetchImageWithReferrer net pageUrl b) = spoofed_outcome net pageUrl"
  by (simp add: fetchImageWithReferrer_def spoofed_outcome_def Let_def try_finally_def
      spoofed_request_def)

lemma fetchImageWithReferrer_requests:
  "requests (snd (fetchImageWithReferrer net pageUrl b)) = requests b @ [ReferrerSpoofed]"
  by (simp add: fetchImageWithReferrer_def Let_def try_finally_def spoofed_request_def
      remove_listeners_def)

lemma add_remove_fresh:
  "l \<notin> set ls \<Longrightarrow> removeListener l (addListener l ls) = ls"
  by (simp add: removeListener_def addListener_def)

text \<open>
  C2. The resolver issues the requests of the tiers in the order referrer-spoofed, direct,
  relayed, each at most once. The direct request is made only after the spoofed tier has
  thrown, the relayed one only after both have thrown, and then once; what the relayed
  tier gives is what the resolver gives. When it throws as well, the step fails with that
  error under the step name \<open>Fetching Image\<close>, and no earlier tier is tried again.
\<close>

theorem fetch_tiers_in_order:
  "fst (fetch_image net pageUrl b) =
     (case spoofed_outcome net pageUrl of
        Inr blob \<Rightarrow> Inr blob
      | Inl e1 \<Rightarrow> (case direct_outcome net of
                    Inr blob \<Rightarrow> Inr blob
                  | Inl e2 \<Rightarrow> relayed_outcome net)) \<and>
   requests (snd (fetch_image net pageUrl b)) =
     requests b @
       (case spoofed_outcome net pageUrl of
          Inr blob \<Rightarrow> [ReferrerSpoofed]
        | Inl e1 \<Rightarrow> (case direct_outcome net of
                      Inr blob \<Rightarrow> [ReferrerSpoofed, Direct]
                    | Inl e2 \<Rightarrow> [ReferrerSpoofed, Direct, Relayed])) \<and>
   fst (fetch_step net pageUrl b) =
     (case fst (fetch_image net pageUrl b) of
        Inl e \<Rightarrow> Inl (StepError ''Fetching Image'' e)
      | Inr blob \<Rightarrow> Inr blob)"
proof -
  obtain r1 b1 where t1: "fetchImageWithReferrer net pageUrl b = (r1, b1)"
    by (cases "fetchImageWithReferrer net pageUrl b")
  have r1: "r1 = spoofed_outcome net pageUrl"
    using fetchImageWithReferrer_result [of net pageUrl b] t1 by simp
  have q1: "requests b1 = requests b @ [ReferrerSpoofed]"
    using fetchImageWithReferrer_requests [of net pageUrl b] t1 by simp
  have res: "fst (fetch_image net pageUrl b) =
     (case spoofed_outcome net pageUrl of
        Inr blob \<Rightarrow> Inr blob
      | Inl e1 \<Rightarrow> (case direct_outcome net of
                    Inr blob \<Rightarrow> Inr blob
                  | Inl e2 \<Rightarrow> relayed_outcome net))"
    using r1 by (simp add: fetch_image_def t1 fetchDirect_def fetchImageViaContent_def
        direct_outcome_def relayed_outcome_def split: sum.splits)
  have log: "requests (snd (fetch_image net pageUrl b)) =
     requests b @
       (case spoofed_outcome net pageUrl of
          Inr blob \<Rightarrow> [ReferrerSpoofed]
        | Inl e1 \<Rightarrow> (case direct_outcome net of
                      Inr blob \<Rightarrow> [ReferrerSpoofed, Direct]
                    | Inl e2 \<Rightarrow> [ReferrerSpoofed, Direct, Relayed]))"
    using r1 q1 by (simp add: fetch_image_def t1 fetchDirect_def fetchImageViaContent_def
        direct_outcome_def split: sum.splits)
  have step: "fst (fetch_step net pageUrl b) =
     (case fst (fetch_image net pageUrl b) of
        Inl e \<Rightarrow> Inl (StepError ''Fetching Image'' e)
      | Inr blob \<Rightarrow> Inr blob)"
    by (simp add: fetch_step_def split: prod.splits sum.splits)
  from res log step show ?thesis by (intro conjI)
qed

text \<open>
  On \<open>hotlink_network\<close> the first two tiers fail and the relayed bytes are returned after
  three requests; on \<open>dead_network\<close> all three fail and the step fails after the same
  three requests.
\<close>

theorem fetch_tiers_in_order_witness:
  "fst (fetch_image hotlink_network ''https://example.org/page'' busy_browser) = Inr ''bytes'' \<and>
   requests (snd (fetch_image hotlink_network ''https://example.org/page'' busy_browser))
     = [ReferrerSpoofed, Direct, Relayed] \<and>
   fst (fetch_step dead_network ''https://example.org/page'' busy_browser)
     = Inl (StepError ''Fetching Image'' (ContentFetchError ''HTTP 403'')) \<and>
   requests (snd (fetch_image dead_network ''https://example.org/page'' busy_browser))
     = [ReferrerSpoofed, Direct, Relayed]"
proof -
  have s1: "spoofed_outcome hotlink_network ''https://example.org/page'' = Inl (FailedToFetch 403)"
    by (simp add: spoofed_outcome_def hotlink_network_def checked_blob_def ok_def)
  have d1: "direct_outcome hotlink_network = Inl (NetworkError ''blocked'')"
    by (simp add: direct_outcome_def hotlink_network_def checked_blob_def)
  have c1: "relayed_outcome hotlink_network = Inr ''bytes''"
    by (simp add: relayed_outcome_def hotlink_network_def relayed_blob_def)
  have s2: "spoofed_outcome dead_network ''https://example.org/page'' = Inl (FailedToFetch 403)"
    by (simp add: spoofed_outcome_def dead_network_def checked_blob_def ok_def)
  have d2: "direct_outcome dead_network = Inl (NetworkError ''blocked'')"
    by (simp add: direct_outcome_def dead_network_def checked_blob_def)
  have c2: "relayed_outcome dead_network = Inl (ContentFetchError ''HTTP 403'')"
    by (simp add: relayed_outcome_def dead_network_def relayed_blob_def content_error_message_def)
  have q: "requests busy_browser = []"
    by (simp add: busy_browser_def)
  show ?thesis
    using fetch_tiers_in_order [of hotlink_network "''https://example.org/page''" busy_browser]
      fetch_tiers_in_order [of dead_network "''https://example.org/page''" busy_browser]
    by (simp add: s1 d1 c1 s2 d2 c2 q)
qed

text \<open>
  C10. A call of \<open>fetchImageWithReferrer\<close> with a non-empty referrer leaves the listeners
  of both \<open>webRequest\<close> events as it found them, whatever the request meets: a blob, a
  status that is not a success, or a thrown error. The two listeners it installs are
  closures created by the call, so neither is among those installed before.
\<close>

theorem interceptors_removed_on_every_exit:
  assumes "referrer \<noteq> []" and "closures_known b"
  shows "onBeforeSendHeaders (snd (fetchImageWithReferrer net referrer b)) = onBeforeSendHeaders b \<and>
         onHeadersReceived (snd (fetchImageWithReferrer net referrer b)) = onHeadersReceived b \<and>
         closures_known (snd (fetchImageWithReferrer net referrer b)) \<and>
         fst (fetchImageWithReferrer net referrer b) = checked_blob (spoofed_fetch net)"
proof -
  from assms(2) have f1: "next_closure b \<notin> set (onBeforeSendHeaders b)"
    and f2: "next_closure b + 1 \<notin> set (onHeadersReceived b)"
    by (auto simp: closures_known_def list_all_iff)
  from assms(2) have k: "list_all (\<lambda>l. l < next_closure b + 2) (onBeforeSendHeaders b)"
    "list_all (\<lambda>l. l < next_closure b + 2) (onHeadersReceived b)"
    by (auto simp: closures_known_def list_all_iff)
  show ?thesis
    using assms(1) f1 f2 k
    by (simp add: fetchImageWithReferrer_def Let_def try_finally_def spoofed_request_def
        remove_listeners_def add_remove_fresh closures_known_def)
qed

text \<open>
  With listeners \<open>[0, 4]\<close> and \<open>[1, 5]\<close> installed and a 403 answer, the call throws and
  the listeners are \<open>[0, 4]\<close> and \<open>[1, 5]\<close> again.
\<close>

theorem interceptors_removed_on_every_exit_witness:
  "onBeforeSendHeaders (snd (fetchImageWithReferrer hotlink_network ''https://example.org/page'' busy_browser)) = [0, 4] \<and>
   onHeadersReceived (snd (fetchImageWithReferrer hotlink_network ''https://example.org/page'' busy_browser)) = [1, 5] \<and>
   fst (fetchImageWithReferrer hotlink_network ''https://example.org/page'' busy_browser) = Inl (FailedToFetch 403)"
proof -
  have r: "''https://example.org/page'' \<noteq> []" by simp
  have k: "closures_known busy_browser"
    by (simp add: closures_known_def busy_browser_def)
  have c: "checked_blob (spoofed_fetch hotlink_network) = Inl (FailedToFetch 403)"
    by (simp add: hotlink_network_def checked_blob_def ok_def)
  show ?thesis
    using interceptors_removed_on_every_exit [OF r k, of hotlink_network]
    by (simp add: c busy_browser_def)
qed

section \<open>Properties of the overlay renderer\<close>

text \<open>
  C6. With \<open>scaleX = img.width / originalWidth\<close> and \<open>scaleY = img.height / originalHeight\<close>,
  the element placed for a block has its left and top at the block's \<open>x0\<close> and \<open>y0\<close>
  scaled by \<open>scaleX\<close> and \<open>scaleY\<close>, and the block's width and height scaled likewise.
  One element is placed for each block, in order.
\<close>

theorem overlay_region_is_scaled_box:
  assumes "originalWidth \<noteq> 0" and "originalHeight \<noteq> 0" and "i < length blocks"
  shows "length (overlayTranslations w h blocks originalWidth originalHeight) = length blocks \<and>
    div_left (overlayTranslations w h blocks originalWidth originalHeight ! i)
      = x0 (tb_bbox (blocks ! i)) * (w / originalWidth) \<and>
    div_top (overlayTranslations w h blocks originalWidth originalHeight ! i)
      = y0 (tb_bbox (blocks ! i)) * (h / originalHeight) \<and>
    div_width (overlayTranslations w h blocks originalWidth originalHeight ! i)
      = (x1 (tb_bbox (blocks ! i)) - x0 (tb_bbox (blocks ! i))) * (w / originalWidth) \<and>
    div_height (overlayTranslations w h blocks originalWidth originalHeight ! i)
      = (y1 (tb_bbox (blocks ! i)) - y0 (tb_bbox (blocks ! i))) * (h / originalHeight)"
  using assms(3) by (simp add: overlayTranslations_def Let_def)

text \<open>
  The box (100,100,200,150) of an image 1000 by 600 shown at 500 by 300 is placed at
  (50,50) with size 50 by 25.
\<close>

theorem overlay_region_is_scaled_box_witness:
  "div_left (overlayTranslations 500 300 [example_translated] 1000 600 ! 0) = 50 \<and>
   div_top (overlayTranslations 500 300 [example_translated] 1000 600 ! 0) = 50 \<and>
   div_width (overlayTranslations 500 300 [example_translated] 1000 600 ! 0) = 50 \<and>
   div_height (overlayTranslations 500 300 [example_translated] 1000 600 ! 0) = 25"
proof -
  have a: "(1000::rat) \<noteq> 0" and b: "(600::rat) \<noteq> 0" and c: "0 < length [example_translated]"
    by simp_all
  show ?thesis
    using overlay_region_is_scaled_box [OF a b c, of 500 300]
    by (simp add: example_translated_def)
qed

section \<open>Properties of the filter and the translation loop\<close>








text \<open>
  C7. A block with confidence 90 and text \<open>Hi\<close> but no box is dropped, and
  \<open>skippedNoBbox\<close> is still 0 after the loop: the first test of \<open>!bbox\<close> leaves the round
  before the second one, which counts, is reached.
\<close>

theorem missing_bbox_drop_not_counted:
  "translate_loop upper initial_loop_state [boxless_block] = Inr initial_loop_state \<and>
   skippedNoBbox initial_loop_state = 0 \<and> translatedBlocks initial_loop_state = []"
  by (simp add: loop_body_def boxless_block_def block_confidence_of_def block_text_of_def
      MIN_CONFIDENCE_def trim_def is_space_def initial_loop_state_def)

section \<open>Properties of the queue\<close>

lemma replay_snoc: "replay (h @ [e]) = replay_event (replay h) e"
  by (simp add: replay_def)

lemma replay_short: "replay h = Some p \<Longrightarrow> length p \<le> 1"
proof (induction h arbitrary: p rule: rev_induct)
  case Nil
  then show ?case by (simp add: replay_def)
next
  case (snoc e h)
  then show ?case
    by (cases "replay h"; cases e) (auto simp: replay_snoc split: if_splits)
qed

lemma consistent_processQueue:
  assumes "consistent s"
  shows "consistent (processQueue s)"
proof (cases "activeProcessors s \<ge> MAX_CONCURRENT \<or> imageQueue s = []")
  case True
  with assms show ?thesis by (simp add: processQueue_def)
next
  case False
  with assms have "in_flight s = []"
    by (cases "in_flight s") (auto simp: consistent_def MAX_CONCURRENT_def)
  with assms False show ?thesis
    by (simp add: processQueue_def consistent_def replay_snoc)
qed

lemma scan_image_frame:
  "activeProcessors (scan_image m st s im) = activeProcessors s \<and>
   in_flight (scan_image m st s im) = in_flight s \<and>
   history (scan_image m st s im) = history s"
  by (simp add: scan_image_def)

lemma scan_images_frame:
  "activeProcessors (scan_images m st images s) = activeProcessors s \<and>
   in_flight (scan_images m st images s) = in_flight s \<and>
   history (scan_images m st images s) = history s"
  unfolding scan_images_def
  by (induction images arbitrary: s) (simp_all add: scan_image_frame)

lemma consistent_scan: "consistent s \<Longrightarrow> consistent (scanAndTranslate m st images s)"
  unfolding scanAndTranslate_def
  by (rule consistent_processQueue) (simp add: consistent_def scan_images_frame)

lemma consistent_settle:
  assumes "consistent s" and "i \<in> set (in_flight s)"
  shows "consistent (settle i success s)"
proof -
  from assms(1) have "length (in_flight s) \<le> 1"
    by (auto simp: consistent_def dest: replay_short)
  with assms(2) have one: "in_flight s = [i]"
    by (cases "in_flight s") auto
  show ?thesis
    unfolding settle_def
    using assms(1) one
    by (intro consistent_processQueue) (simp add: consistent_def replay_snoc)
qed

lemma reachable_consistent: "reachable s \<Longrightarrow> consistent s"
proof (induction rule: reachable.induct)
  case start
  show ?case by (simp add: consistent_def initial_page_def replay_def)
next
  case (after s s')
  from after.hyps(2) after.IH show ?case
    by (cases rule: step.cases) (auto intro: consistent_scan consistent_settle)
qed

text \<open>
  C3. With \<open>MAX_CONCURRENT = 1\<close>, in every state the content script can reach,
  \<open>activeProcessors\<close> is at most 1, it counts the pending requests, so at most one
  task is being processed, and the history of dispatches and completions replays: each
  task was dispatched when nothing was pending, that is, after the task dispatched
  before it had finished, with success or with failure.
\<close>

theorem at_most_one_task_in_flight:
  assumes "reachable s"
  shows "activeProcessors s \<le> MAX_CONCURRENT \<and> length (in_flight s) \<le> 1 \<and>
         activeProcessors s = int (length (in_flight s)) \<and>
         replay (history s) = Some (in_flight s)"
proof -
  from assms have c: "consistent s" by (rule reachable_consistent)
  then have "length (in_flight s) \<le> 1"
    by (auto simp: consistent_def dest: replay_short)
  with c show ?thesis by (simp add: consistent_def MAX_CONCURRENT_def)
qed

text \<open>
  Three images are queued at once; the first is dispatched, and the second only after
  the first has finished.
\<close>

theorem at_most_one_task_in_flight_witness:
  "reachable (settle 11 True (scanAndTranslate 50 en_es three_images initial_page)) \<and>
   activeProcessors (settle 11 True (scanAndTranslate 50 en_es three_images initial_page)) = 1 \<and>
   in_flight (settle 11 True (scanAndTranslate 50 en_es three_images initial_page)) = [12] \<and>
   history (settle 11 True (scanAndTranslate 50 en_es three_images initial_page))
     = [Dispatched 11, Finished 11 True, Dispatched 12] \<and>
   replay [Dispatched 11, Finished 11 True, Dispatched 12] = Some [12]"
proof -
  let ?s1 = "scanAndTranslate 50 en_es three_images initial_page"
  have f1: "in_flight ?s1 = [11]"
    by (simp add: scanAndTranslate_def scan_images_def scan_image_def three_images_def
        initial_page_def processQueue_def MAX_CONCURRENT_def)
  have r1: "reachable ?s1"
    by (rule reachable.after [OF reachable.start step.scan])
  have "step ?s1 (settle 11 True ?s1)"
    by (rule step.settled) (simp add: f1)
  with r1 have r2: "reachable (settle 11 True ?s1)"
    by (rule reachable.after)
  have h: "history (settle 11 True ?s1) = [Dispatched 11, Finished 11 True, Dispatched 12]"
    by (simp add: settle_def scanAndTranslate_def scan_images_def scan_image_def three_images_def
        initial_page_def processQueue_def MAX_CONCURRENT_def)
  have f2: "in_flight (settle 11 True ?s1) = [12]"
    by (simp add: settle_def scanAndTranslate_def scan_images_def scan_image_def three_images_def
        initial_page_def processQueue_def MAX_CONCURRENT_def)
  show ?thesis
    using at_most_one_task_in_flight [OF r2] r2 by (simp add: h f2)
qed

section \<open>Properties of discovery\<close>





lemma status_processQueue [simp]: "status (processQueue s) = status s"
  by (simp add: processQueue_def)




end
